theory Spec2Isabelle
  imports Complex_Main "HOL-Library.Sublist"
begin

section \<open>md2docx: the front end and its conversion bridge\<close>

text \<open>
  A shallow embedding of the React components (\<^verbatim>\<open>App\<close>, \<^verbatim>\<open>FileUploader\<close>,
  \<^verbatim>\<open>Settings\<close>, \<^verbatim>\<open>Converter\<close>) and of the Electron \<^verbatim>\<open>convert-file\<close> handler.

  JavaScript strings are modelled as \<^typ>\<open>string\<close> (byte lists, UTF-8 for text
  outside ASCII). The properties below only compare strings, test them for
  emptiness and look at ASCII suffixes, which reads the same on UTF-16 code units.
\<close>

subsection \<open>JavaScript helpers\<close>

text \<open>
  A state cell holding \<^verbatim>\<open>null\<close> or a string is a \<^typ>\<open>string option\<close>. JavaScript
  tests such a cell with \<^verbatim>\<open>if (x)\<close> and \<^verbatim>\<open>x && ...\<close>: \<^verbatim>\<open>null\<close>, \<^verbatim>\<open>undefined\<close> and
  the empty string are falsy, every other string is truthy.
\<close>

definition truthy :: "string option \<Rightarrow> bool" where
  "truthy v = (case v of None \<Rightarrow> False | Some s \<Rightarrow> s \<noteq> [])"

text \<open>\<^verbatim>\<open>a || b\<close> on a possibly absent string \<^verbatim>\<open>a\<close> and a string \<^verbatim>\<open>b\<close>.\<close>

definition js_or :: "string option \<Rightarrow> string \<Rightarrow> string" where
  "js_or a b = (if truthy a then the a else b)"

text \<open>
  \<^verbatim>\<open>String.prototype.endsWith(searchString)\<close>: false when the search string is
  longer than the string, otherwise the last \<^verbatim>\<open>searchString.length\<close> code units
  are compared.
\<close>

definition endsWith :: "string \<Rightarrow> string \<Rightarrow> bool" where
  "endsWith s t = (length t \<le> length s \<and> drop (length s - length t) s = t)"

text \<open>
  The values a settings field holds: a number, \<^verbatim>\<open>NaN\<close>, an infinity or a string. A
  number is kept as the exact rational a decimal literal denotes; the rounding
  of IEEE doubles, overflow and the sign of zero are not modelled.
\<close>

datatype js_value = JNumber rat | JNaN | JPosInfinity | JNegInfinity | JString string

text \<open>
  The built-in \<^verbatim>\<open>parseFloat\<close> (ECMAScript): leading white space is dropped, then
  the longest prefix that is a \<^verbatim>\<open>StrDecimalLiteral\<close> is read (a sign, then
  \<^verbatim>\<open>Infinity\<close> or digits with an optional fraction and exponent); the result is
  \<^verbatim>\<open>NaN\<close> when there is no such prefix. Only the ASCII white space characters are
  recognised here.
\<close>

definition isWhiteSpace :: "char \<Rightarrow> bool" where
  "isWhiteSpace c = (c \<in> set [CHR 0x09, CHR 0x0A, CHR 0x0B, CHR 0x0C, CHR 0x0D, CHR 0x20])"

definition isDigit :: "char \<Rightarrow> bool" where
  "isDigit c = (c \<in> set ''0123456789'')"

definition digitsValue :: "string \<Rightarrow> nat" where
  "digitsValue ds = foldl (\<lambda>a c. 10 * a + (of_char c - 48)) 0 ds"

definition signOf :: "string \<Rightarrow> bool \<times> string" where
  "signOf s =
     (case s of
        [] \<Rightarrow> (False, s)
      | c # r \<Rightarrow>
          if c = CHR ''-'' then (True, r)
          else if c = CHR ''+'' then (False, r)
          else (False, s))"

definition parseExponent :: "string \<Rightarrow> int" where
  "parseExponent r =
     (case r of
        [] \<Rightarrow> 0
      | e # r1 \<Rightarrow>
          if e = CHR ''e'' \<or> e = CHR ''E'' then
            (let (neg, r2) = signOf r1; ds = takeWhile isDigit r2
             in if ds = [] then 0
                else if neg then - int (digitsValue ds) else int (digitsValue ds))
          else 0)"

definition parseFloat :: "string \<Rightarrow> js_value" where
  "parseFloat inputString =
     (let trimmedString = dropWhile isWhiteSpace inputString;
          (neg, u) = signOf trimmedString
      in if prefix ''Infinity'' u then (if neg then JNegInfinity else JPosInfinity)
         else
           let ip = takeWhile isDigit u;
               r1 = dropWhile isDigit u;
               (fp, r2) =
                 (case r1 of
                    [] \<Rightarrow> ([], r1)
                  | c # r \<Rightarrow>
                      if c = CHR ''.'' then (takeWhile isDigit r, dropWhile isDigit r)
                      else ([], r1))
           in if ip = [] \<and> fp = [] then JNaN
              else
                let m = of_nat (digitsValue ip) + of_nat (digitsValue fp) / 10 ^ length fp;
                    e = parseExponent r2;
                    v = (if 0 \<le> e then m * 10 ^ nat e else m / 10 ^ nat (- e))
                in JNumber (if neg then - v else v))"

subsection \<open>Data\<close>

text \<open>The \<^verbatim>\<open>File\<close> object Electron hands to the renderer: \<^verbatim>\<open>name\<close>, \<^verbatim>\<open>size\<close>, \<^verbatim>\<open>path\<close>.\<close>

record file_obj =
  name :: string
  fsize :: nat
  path :: string

text \<open>
  Objects live in a store and are held by reference. The settings object is
  such a reference (see the \<^verbatim>\<open>Settings\<close> component below).
\<close>

type_synonym ref = nat

type_synonym js_object = "string \<rightharpoonup> js_value"

record heap =
  cells :: "ref \<rightharpoonup> js_object"
  fresh :: ref

definition obj_at :: "heap \<Rightarrow> ref \<Rightarrow> js_object" where
  "obj_at h r = (case cells h r of None \<Rightarrow> Map.empty | Some obj \<Rightarrow> obj)"

text \<open>An object literal allocates a new object: the next unused reference.\<close>

definition alloc :: "js_object \<Rightarrow> heap \<Rightarrow> ref \<times> heap" where
  "alloc obj h = (fresh h, h\<lparr>cells := (cells h)(fresh h \<mapsto> obj), fresh := Suc (fresh h)\<rparr>)"

text \<open>
  The state cells of \<^verbatim>\<open>App\<close>. The file \<^verbatim>\<open>src/App.jsx\<close> declares \<^verbatim>\<open>file\<close>, \<^verbatim>\<open>settings\<close>,
  \<^verbatim>\<open>outputFile\<close> and \<^verbatim>\<open>isConverting\<close>; the second copy of \<^verbatim>\<open>App\<close> in the sources
  (\<^verbatim>\<open>unnamed/part_000\<close>) declares the same four and \<^verbatim>\<open>error\<close>.
\<close>

record app =
  file' :: "file_obj option"
  settings :: ref
  outputFile :: "string option"
  isConverting :: bool

record app_err = app +
  error :: "string option"

text \<open>
  What the bridge call \<^verbatim>\<open>window.electronAPI.convertFile(...)\<close> settles to. A
  resolved value is the object \<^verbatim>\<open>{ outputPath }\<close>. A rejection is an object whose
  \<^verbatim>\<open>message\<close> property may be absent (\<^verbatim>\<open>undefined\<close>).
\<close>

datatype outcome = Resolve (outputPath: string) | Reject (message: "string option")

text \<open>
  The calls a handler makes, in order: the state setters, the bridge call, the
  console and the clipboard.
\<close>

datatype effect =
    SetFile "file_obj option"
  | SetSettings ref
  | SetIsDragging bool
  | SetIsConverting bool
  | SetError "string option"
  | SetOutputFile "string option"
  | ConvertFile string ref
  | ConsoleError string outcome
  | WriteText string
  | SetCopied bool
  | SetTimeout nat effect

text \<open>A setter replaces its cell; the other calls leave the \<^verbatim>\<open>App\<close> cells alone.\<close>

fun apply_effect :: "effect \<Rightarrow> app_err \<Rightarrow> app_err" where
  "apply_effect (SetFile f) s = s\<lparr>file' := f\<rparr>"
| "apply_effect (SetSettings r) s = s\<lparr>settings := r\<rparr>"
| "apply_effect (SetIsConverting b) s = s\<lparr>isConverting := b\<rparr>"
| "apply_effect (SetError e) s = s\<lparr>error := e\<rparr>"
| "apply_effect (SetOutputFile p) s = s\<lparr>outputFile := p\<rparr>"
| "apply_effect _ s = s"

fun run :: "effect list \<Rightarrow> app_err \<Rightarrow> app_err" where
  "run [] s = s"
| "run (e # es) s = run es (apply_effect e s)"

text \<open>The same for the \<^verbatim>\<open>App\<close> of \<^verbatim>\<open>src/App.jsx\<close>, which has no \<^verbatim>\<open>error\<close> cell.\<close>

fun apply_effect_App :: "effect \<Rightarrow> app \<Rightarrow> app" where
  "apply_effect_App (SetFile f) s = s\<lparr>file' := f\<rparr>"
| "apply_effect_App (SetSettings r) s = s\<lparr>settings := r\<rparr>"
| "apply_effect_App (SetIsConverting b) s = s\<lparr>isConverting := b\<rparr>"
| "apply_effect_App (SetOutputFile p) s = s\<lparr>outputFile := p\<rparr>"
| "apply_effect_App _ s = s"

fun run_App :: "effect list \<Rightarrow> app \<Rightarrow> app" where
  "run_App [] s = s"
| "run_App (e # es) s = run_App es (apply_effect_App e s)"

subsection \<open>App: the initial state\<close>

text \<open>
  The initial values of the \<^verbatim>\<open>useState\<close> cells. The settings literal is the first
  object of the store.
\<close>

definition defaultSettings :: js_object where
  "defaultSettings =
     [''fontSize'' \<mapsto> JNumber 14,
      ''fontFamily'' \<mapsto> JString ''Times New Roman'',
      ''lineSpacing'' \<mapsto> JNumber (3 / 2),
      ''firstLineIndent'' \<mapsto> JNumber (127 / 100),
      ''marginTop'' \<mapsto> JNumber 2,
      ''marginBottom'' \<mapsto> JNumber 2,
      ''marginLeft'' \<mapsto> JNumber 3,
      ''marginRight'' \<mapsto> JNumber (3 / 2)]"

definition initial_heap :: heap where
  "initial_heap = snd (alloc defaultSettings \<lparr>cells = Map.empty, fresh = 0\<rparr>)"

definition initial_App :: app where
  "initial_App = \<lparr>file' = None, settings = 0, outputFile = None, isConverting = False\<rparr>"

definition initial_app :: app_err where
  "initial_app = \<lparr>file' = None, settings = 0, outputFile = None, isConverting = False,
                  error = None\<rparr>"

subsection \<open>Settings: the settings component\<close>

text \<open>
  \<^verbatim>\<open>handleChange\<close>: \<^verbatim>\<open>setSettings({ ...settings, [key]: parseFloat(value) })\<close>. The
  spread copies the fields of the current object into a new object, the computed
  key is then set in the new object. \<open>value\<close> is \<^verbatim>\<open>e.target.value\<close> of an \<^verbatim>\<open>input\<close> or
  \<^verbatim>\<open>select\<close> element, a string.
\<close>

definition handleChange :: "ref \<Rightarrow> string \<Rightarrow> string \<Rightarrow> heap \<Rightarrow> effect list \<times> heap" where
  "handleChange settings' key value' h =
     (let (r, h') = alloc ((obj_at h settings')(key \<mapsto> parseFloat value')) h
      in ([SetSettings r], h'))"

subsection \<open>App: the conversion orchestrator\<close>

text \<open>The fallback text of \<^verbatim>\<open>setError(err.message || '...')\<close>, as UTF-8 bytes.\<close>

definition fallbackMessage :: string where
  "fallbackMessage = map char_of
     [208, 159, 209, 128, 208, 190, 208, 184, 208, 183, 208, 190, 209, 136, 208, 187,
      208, 176, 32, 208, 190, 209, 136, 208, 184, 208, 177, 208, 186, 208, 176, 32,
      208, 191, 209, 128, 208, 184, 32, 208, 186, 208, 190, 208, 189, 208, 178, 208,
      181, 209, 128, 209, 130, 208, 176, 209, 134, 208, 184, 208, 184 :: nat]"

text \<open>
  \<^verbatim>\<open>handleConvert\<close> of \<^verbatim>\<open>unnamed/part_000\<close>, as the list of the calls it makes.
  The function is \<^verbatim>\<open>async\<close>: the calls up to and including \<^verbatim>\<open>convertFile\<close> are
  made before it suspends at \<^verbatim>\<open>await\<close>, the rest once the bridge call has settled
  to \<open>r\<close>.
\<close>

definition handleConvert :: "outcome \<Rightarrow> app_err \<Rightarrow> effect list" where
  "handleConvert r s =
     (case file' s of
        None \<Rightarrow> []
      | Some f \<Rightarrow>
          [SetIsConverting True, SetError None, SetOutputFile None,
           ConvertFile (path f) (settings s)]
          @ (case r of
               Resolve p \<Rightarrow> [SetOutputFile (Some p)]
             | Reject m \<Rightarrow>
                 [ConsoleError ''Conversion failed:'' r,
                  SetError (Some (js_or m fallbackMessage))])
          @ [SetIsConverting False])"

text \<open>
  \<^verbatim>\<open>handleConvert\<close> of \<^verbatim>\<open>src/App.jsx\<close>: no \<^verbatim>\<open>error\<close> cell, the output is not cleared,
  and a rejection is only logged.
\<close>

definition handleConvert_App :: "outcome \<Rightarrow> app \<Rightarrow> effect list" where
  "handleConvert_App r s =
     (case file' s of
        None \<Rightarrow> []
      | Some f \<Rightarrow>
          [SetIsConverting True, ConvertFile (path f) (settings s)]
          @ (case r of
               Resolve p \<Rightarrow> [SetOutputFile (Some p)]
             | Reject m \<Rightarrow> [ConsoleError ''Conversion failed:'' r])
          @ [SetIsConverting False])"

text \<open>
  The conversion state the components render from the cells: the progress bar
  under \<^verbatim>\<open>isConverting\<close>, the error notification under \<^verbatim>\<open>error &&\<close>, the result
  block under \<^verbatim>\<open>outputFile && !isConverting\<close>.
\<close>

datatype ConversionState = Idle | Converting | Succeeded string | Failed string

definition conversionState :: "app_err \<Rightarrow> ConversionState" where
  "conversionState s =
     (if isConverting s then Converting
      else if truthy (error s) then Failed (the (error s))
      else if truthy (outputFile s) then Succeeded (the (outputFile s))
      else Idle)"

text \<open>
  The bridge calls among a handler's calls, and the calls made before the first
  bridge call.
\<close>

fun is_ConvertFile :: "effect \<Rightarrow> bool" where
  "is_ConvertFile (ConvertFile p st) = True"
| "is_ConvertFile _ = False"

definition bridge_calls :: "effect list \<Rightarrow> effect list" where
  "bridge_calls es = filter is_ConvertFile es"


subsection \<open>Converter: the result presenter\<close>

text \<open>
  \<^verbatim>\<open>handleCopyPath\<close>. The clipboard write is awaited: \<open>written\<close> says whether it
  resolved; when it rejects, the handler stops there.
\<close>

definition handleCopyPath :: "bool \<Rightarrow> string option \<Rightarrow> effect list" where
  "handleCopyPath written outputFile' =
     (if truthy outputFile' then
        WriteText (the outputFile')
        # (if written then [SetCopied True, SetTimeout 2000 (SetCopied False)] else [])
      else [])"

fun clipboard_writes :: "effect list \<Rightarrow> string list" where
  "clipboard_writes [] = []"
| "clipboard_writes (WriteText t # es) = t # clipboard_writes es"
| "clipboard_writes (e # es) = clipboard_writes es"

subsection \<open>FileUploader: the file selector\<close>

text \<open>
  \<^verbatim>\<open>handleDrop\<close> and \<^verbatim>\<open>handleFileSelect\<close> read \<^verbatim>\<open>files[0]\<close> of a \<^verbatim>\<open>FileList\<close>, which is
  \<^verbatim>\<open>undefined\<close> on an empty list; \<^verbatim>\<open>droppedFile?.name.endsWith('.md')\<close> is then
  \<^verbatim>\<open>undefined\<close>, which is falsy.
\<close>

definition handleDrop :: "file_obj list \<Rightarrow> effect list" where
  "handleDrop files =
     SetIsDragging False
     # (case files of
          [] \<Rightarrow> []
        | droppedFile # _ \<Rightarrow>
            (if endsWith (name droppedFile) ''.md'' then [SetFile (Some droppedFile)] else []))"

definition handleFileSelect :: "file_obj list \<Rightarrow> effect list" where
  "handleFileSelect files =
     (case files of
        [] \<Rightarrow> []
      | selectedFile # _ \<Rightarrow> [SetFile (Some selectedFile)])"

subsection \<open>The main process: the \<^verbatim>\<open>convert-file\<close> handler\<close>

text \<open>
  The handler computes the output path with Node's \<^verbatim>\<open>path\<close> module. The POSIX
  variant of the module is modelled (the handler starts \<^verbatim>\<open>venv/bin/python\<close> or
  \<^verbatim>\<open>python3.14\<close>). \<^verbatim>\<open>dirname\<close> and \<^verbatim>\<open>basename\<close> follow the module's loops, which
  scan the path from its last character; an index that JavaScript initialises to
  \<^verbatim>\<open>-1\<close> is an \<^typ>\<open>int\<close>.
\<close>

text \<open>\<^verbatim>\<open>String.prototype.slice(start, end)\<close>: a negative index counts from the end.\<close>

definition js_slice :: "string \<Rightarrow> int \<Rightarrow> int \<Rightarrow> string" where
  "js_slice s start end' =
     (let len = int (length s);
          k = (if start < 0 then max (len + start) 0 else min start len);
          final = (if end' < 0 then max (len + end') 0 else min end' len)
      in take (nat (final - k)) (drop (nat k) s))"

text \<open>
  \<^verbatim>\<open>path.dirname\<close>: the loop \<^verbatim>\<open>for (i = path.length - 1; i >= 1; --i)\<close> looks for the
  slash before the last component; \<^verbatim>\<open>dirname_loop p i matchedSlash\<close> is the loop
  at index \<open>i\<close>, and its value is \<^verbatim>\<open>end\<close> (\<open>None\<close> for \<^verbatim>\<open>-1\<close>).
\<close>

fun dirname_loop :: "string \<Rightarrow> nat \<Rightarrow> bool \<Rightarrow> nat option" where
  "dirname_loop p 0 matchedSlash = None"
| "dirname_loop p (Suc j) matchedSlash =
     (if p ! Suc j = CHR ''/'' then
        (if \<not> matchedSlash then Some (Suc j) else dirname_loop p j matchedSlash)
      else dirname_loop p j False)"

definition path_dirname :: "string \<Rightarrow> string" where
  "path_dirname p =
     (if p = [] then ''.''
      else
        let hasRoot = (p ! 0 = CHR ''/'')
        in case dirname_loop p (length p - 1) True of
             None \<Rightarrow> if hasRoot then ''/'' else ''.''
           | Some e \<Rightarrow> if hasRoot \<and> e = 1 then ''//'' else js_slice p 0 (int e))"

text \<open>
  \<^verbatim>\<open>path.basename(path, suffix)\<close>. With a non-empty suffix no longer than the path,
  the loop \<^verbatim>\<open>for (i = path.length - 1; i >= 0; --i)\<close> matches the suffix from its
  last character while it scans the last component. The first numeric argument
  of the loop functions is \<open>i + 1\<close>; the result is \<^verbatim>\<open>(start, end, firstNonSlashEnd)\<close>.
\<close>

fun basename_suffix_loop ::
  "string \<Rightarrow> string \<Rightarrow> nat \<Rightarrow> int \<Rightarrow> bool \<Rightarrow> int \<Rightarrow> int \<Rightarrow> nat \<times> int \<times> int" where
  "basename_suffix_loop p sfx 0 end' matchedSlash extIdx firstNonSlashEnd =
     (0, end', firstNonSlashEnd)"
| "basename_suffix_loop p sfx (Suc i) end' matchedSlash extIdx firstNonSlashEnd =
     (if p ! i = CHR ''/'' then
        (if \<not> matchedSlash then (i + 1, end', firstNonSlashEnd)
         else basename_suffix_loop p sfx i end' matchedSlash extIdx firstNonSlashEnd)
      else
        (let matchedSlash1 = (if firstNonSlashEnd = - 1 then False else matchedSlash);
             firstNonSlashEnd1 = (if firstNonSlashEnd = - 1 then int i + 1 else firstNonSlashEnd)
         in if 0 \<le> extIdx then
              (if p ! i = sfx ! nat extIdx then
                 basename_suffix_loop p sfx i (if extIdx - 1 = - 1 then int i else end')
                   matchedSlash1 (extIdx - 1) firstNonSlashEnd1
               else
                 basename_suffix_loop p sfx i firstNonSlashEnd1 matchedSlash1 (- 1)
                   firstNonSlashEnd1)
            else
              basename_suffix_loop p sfx i end' matchedSlash1 extIdx firstNonSlashEnd1))"

fun basename_loop :: "string \<Rightarrow> nat \<Rightarrow> int \<Rightarrow> bool \<Rightarrow> nat \<times> int" where
  "basename_loop p 0 end' matchedSlash = (0, end')"
| "basename_loop p (Suc i) end' matchedSlash =
     (if p ! i = CHR ''/'' then
        (if \<not> matchedSlash then (i + 1, end') else basename_loop p i end' matchedSlash)
      else if end' = - 1 then basename_loop p i (int i + 1) False
      else basename_loop p i end' matchedSlash)"

definition path_basename :: "string \<Rightarrow> string \<Rightarrow> string" where
  "path_basename p suffix' =
     (if suffix' \<noteq> [] \<and> length suffix' \<le> length p then
        (if suffix' = p then []
         else
           let (start, end', firstNonSlashEnd) =
                 basename_suffix_loop p suffix' (length p) (- 1) True
                   (int (length suffix') - 1) (- 1);
               end2 = (if int start = end' then firstNonSlashEnd
                       else if end' = - 1 then int (length p)
                       else end')
           in js_slice p (int start) end2)
      else
        let (start, end') = basename_loop p (length p) (- 1) True
        in if end' = - 1 then [] else js_slice p (int start) end')"

text \<open>
  \<^verbatim>\<open>path.normalize\<close> and \<^verbatim>\<open>path.join\<close>. The module's \<^verbatim>\<open>normalizeString\<close> walks the
  segments between slashes: an empty segment and \<^verbatim>\<open>.\<close> are skipped, \<^verbatim>\<open>..\<close> removes
  the last segment kept so far (or is kept itself, above the start of a relative
  path), any other segment is kept. It is modelled on the list of segments.
\<close>

fun split_on :: "char \<Rightarrow> string \<Rightarrow> string list" where
  "split_on c [] = [[]]"
| "split_on c (x # xs) =
     (if x = c then [] # split_on c xs
      else (case split_on c xs of
              [] \<Rightarrow> [[x]]
            | s # ss \<Rightarrow> (x # s) # ss))"

fun join_with :: "string \<Rightarrow> string list \<Rightarrow> string" where
  "join_with sep [] = []"
| "join_with sep [x] = x"
| "join_with sep (x # y # zs) = x @ sep @ join_with sep (y # zs)"

definition normalize_segment :: "bool \<Rightarrow> string list \<Rightarrow> string \<Rightarrow> string list" where
  "normalize_segment allowAboveRoot res seg =
     (if seg = [] \<or> seg = ''.'' then res
      else if seg = ''..'' then
        (if res \<noteq> [] \<and> last res \<noteq> ''..'' then butlast res
         else if allowAboveRoot then res @ [''..'']
         else res)
      else res @ [seg])"

definition normalizeString :: "string \<Rightarrow> bool \<Rightarrow> string" where
  "normalizeString p allowAboveRoot =
     join_with ''/'' (foldl (normalize_segment allowAboveRoot) [] (split_on CHR ''/'' p))"

definition path_normalize :: "string \<Rightarrow> string" where
  "path_normalize p =
     (if p = [] then ''.''
      else
        let isAbsolute = (p ! 0 = CHR ''/'');
            trailingSeparator = (last p = CHR ''/'');
            q = normalizeString p (\<not> isAbsolute)
        in if q = [] then
             (if isAbsolute then ''/'' else if trailingSeparator then ''./'' else ''.'')
           else
             let q' = (if trailingSeparator then q @ ''/'' else q)
             in if isAbsolute then ''/'' @ q' else q')"

definition path_join :: "string list \<Rightarrow> string" where
  "path_join args =
     (let joined = filter (\<lambda>arg. arg \<noteq> []) args
      in if joined = [] then ''.'' else path_normalize (join_with ''/'' joined))"

text \<open>
  The handler of \<^verbatim>\<open>convert-file\<close>. \<open>code\<close> and \<open>stderr\<close> are what the converter process
  ended with: the exit code of the \<^verbatim>\<open>close\<close> event (\<^verbatim>\<open>null\<close> when a signal ended the
  process) and the text collected from its error stream.
\<close>

definition outputFile_of :: "string \<Rightarrow> string" where
  "outputFile_of filePath =
     (let outputDir = path_dirname filePath
      in path_join [outputDir, path_basename filePath ''.md'' @ ''.docx''])"

definition convert_file :: "string \<Rightarrow> ref \<Rightarrow> int option \<Rightarrow> string \<Rightarrow> outcome" where
  "convert_file filePath settings' code stderr =
     (if code = Some 0 then Resolve (outputFile_of filePath)
      else Reject (Some (''Conversion failed: '' @ stderr)))"

subsection \<open>Vocabulary of the statements\<close>

text \<open>
  An absolute, normalised path is the list of its components: \<open>abs_path\<close> writes
  a slash before each. A component is plain when it is not empty, holds no
  slash, and is neither \<^verbatim>\<open>.\<close> nor \<^verbatim>\<open>..\<close>.
\<close>

definition plain_segment :: "string \<Rightarrow> bool" where
  "plain_segment c = (c \<noteq> [] \<and> CHR ''/'' \<notin> set c \<and> c \<noteq> ''.'' \<and> c \<noteq> ''..'')"

definition abs_path :: "string list \<Rightarrow> string" where
  "abs_path comps = concat (map (\<lambda>c. CHR ''/'' # c) comps)"

text \<open>
  Example inputs: three files, an \<^verbatim>\<open>App\<close> of \<^verbatim>\<open>src/App.jsx\<close> that converted once
  before, and an \<^verbatim>\<open>App\<close> with the \<^verbatim>\<open>error\<close> cell that failed once before.
\<close>

definition report_md :: file_obj where
  "report_md = \<lparr>name = ''report.md'', fsize = 2048, path = ''/docs/report.md''\<rparr>"

definition notes_txt :: file_obj where
  "notes_txt = \<lparr>name = ''notes.txt'', fsize = 512, path = ''/docs/notes.txt''\<rparr>"

definition readme_MD :: file_obj where
  "readme_MD = \<lparr>name = ''README.MD'', fsize = 100, path = ''/docs/README.MD''\<rparr>"


definition failed_app :: app_err where
  "failed_app = \<lparr>file' = Some report_md, settings = 0,
                 outputFile = Some ''/old/out.docx'', isConverting = False,
                 error = Some ''disk full''\<rparr>"

section \<open>Properties\<close>


lemma endsWith_suffix: "endsWith s t = suffix t s"
proof
  assume "endsWith s t"
  then have "s = take (length s - length t) s @ t"
    by (metis append_take_drop_id endsWith_def)
  then show "suffix t s"
    by (metis suffixI)
next
  assume "suffix t s"
  then obtain u where "s = u @ t"
    by (auto simp: suffix_def)
  then show "endsWith s t"
    by (simp add: endsWith_def)
qed

subsection \<open>Node's path functions on absolute, normalised paths\<close>

lemma split_on_no_sep: "c \<notin> set s \<Longrightarrow> split_on c s = [s]"
  by (induction s) auto

lemma split_on_append: "c \<notin> set s \<Longrightarrow> split_on c (s @ c # r) = s # split_on c r"
  by (induction s) auto

lemma split_on_abs_path:
  "\<forall>c \<in> set comps. CHR ''/'' \<notin> set c \<Longrightarrow> comps \<noteq> [] \<Longrightarrow>
   split_on CHR ''/'' (abs_path comps) = [] # comps"
proof (induction comps)
  case Nil
  then show ?case by simp
next
  case (Cons a comps)
  show ?case
  proof (cases "comps = []")
    case True
    with Cons.prems show ?thesis by (simp add: abs_path_def split_on_no_sep)
  next
    case False
    with Cons have IH: "split_on CHR ''/'' (abs_path comps) = [] # comps" by simp
    have "abs_path comps = CHR ''/'' # tl (abs_path comps)"
      using False by (cases comps) (simp_all add: abs_path_def)
    then obtain r where r: "abs_path comps = CHR ''/'' # r" by blast
    with IH have sr: "split_on CHR ''/'' r = comps" by simp
    have "abs_path (a # comps) = CHR ''/'' # a @ CHR ''/'' # r"
      using r by (simp add: abs_path_def)
    then show ?thesis using Cons.prems sr by (simp add: split_on_append)
  qed
qed

lemma foldl_normalize_plain:
  "\<forall>c \<in> set comps. plain_segment c \<Longrightarrow>
   foldl (normalize_segment b) acc comps = acc @ comps"
  by (induction comps arbitrary: acc) (auto simp: normalize_segment_def plain_segment_def)

lemma join_with_abs_path:
  "comps \<noteq> [] \<Longrightarrow> CHR ''/'' # join_with ''/'' comps = abs_path comps"
proof (induction comps)
  case Nil
  then show ?case by simp
next
  case (Cons a comps)
  then show ?case by (cases comps) (auto simp: abs_path_def)
qed

lemma join_with_nonempty:
  assumes "comps \<noteq> []" and "hd comps \<noteq> []"
  shows "join_with sep comps \<noteq> []"
proof (cases comps)
  case Nil
  with assms show ?thesis by simp
next
  case (Cons a as)
  with assms show ?thesis by (cases as) auto
qed

lemma abs_path_snoc: "abs_path (comps @ [c]) = abs_path comps @ CHR ''/'' # c"
  by (simp add: abs_path_def)

lemma abs_path_hd: "comps \<noteq> [] \<Longrightarrow> abs_path comps ! 0 = CHR ''/''"
  by (cases comps) (simp_all add: abs_path_def)

lemma path_normalize_abs_path:
  assumes "\<forall>c \<in> set comps. plain_segment c" and "comps \<noteq> []"
  shows "path_normalize (abs_path comps) = abs_path comps"
proof -
  have nosep: "\<forall>c \<in> set comps. CHR ''/'' \<notin> set c"
    using assms(1) by (simp add: plain_segment_def)
  have ne: "abs_path comps \<noteq> []"
    using assms(2) by (cases comps) (simp_all add: abs_path_def)
  have hd: "abs_path comps ! 0 = CHR ''/''"
    using assms(2) by (rule abs_path_hd)
  obtain cs c where snoc: "comps = cs @ [c]"
    using assms(2) by (metis rev_exhaust)
  have "plain_segment c" using assms(1) snoc by simp
  then have "c \<noteq> []" and "CHR ''/'' \<notin> set c"
    by (simp_all add: plain_segment_def)
  then have "last c \<noteq> CHR ''/''"
    by (metis last_in_set)
  then have lastc: "last (abs_path comps) \<noteq> CHR ''/''"
    unfolding snoc abs_path_snoc using \<open>c \<noteq> []\<close> by simp
  have q: "normalizeString (abs_path comps) False = join_with ''/'' comps"
    using assms nosep
    by (simp add: normalizeString_def split_on_abs_path normalize_segment_def
        foldl_normalize_plain)
  have "hd comps \<noteq> []"
    using assms by (cases comps) (simp_all add: plain_segment_def)
  then have qne: "join_with ''/'' comps \<noteq> []"
    using assms(2) by (simp add: join_with_nonempty)
  show ?thesis
    using ne hd lastc q qne join_with_abs_path[OF assms(2)]
    by (simp add: path_normalize_def Let_def)
qed



lemma dirname_loop_skip:
  "\<forall>j. a < j \<and> j \<le> i \<longrightarrow> p ! j \<noteq> CHR ''/'' \<Longrightarrow> a \<le> i \<Longrightarrow>
   dirname_loop p i m = dirname_loop p a (if i = a then m else False)"
proof (induction i arbitrary: m)
  case 0
  then show ?case by simp
next
  case (Suc i)
  show ?case
  proof (cases "Suc i = a")
    case True
    then show ?thesis by simp
  next
    case False
    with Suc.prems have "a \<le> i" and "p ! Suc i \<noteq> CHR ''/''" by auto
    with Suc.IH[of False] Suc.prems(1) False show ?thesis by auto
  qed
qed

lemma dirname_loop_last_component:
  assumes "nm \<noteq> []" and "CHR ''/'' \<notin> set nm"
  shows "dirname_loop (d @ CHR ''/'' # nm) (length (d @ CHR ''/'' # nm) - 1) True =
         (if d = [] then None else Some (length d))"
proof -
  let ?p = "d @ CHR ''/'' # nm"
  have inside: "\<forall>j. length d < j \<and> j \<le> length ?p - 1 \<longrightarrow> ?p ! j \<noteq> CHR ''/''"
  proof (intro allI impI)
    fix j assume j: "length d < j \<and> j \<le> length ?p - 1"
    then have "?p ! j = nm ! (j - length d - 1)"
      by (simp add: nth_append nth_Cons')
    moreover have "j - length d - 1 < length nm" using j by auto
    ultimately show "?p ! j \<noteq> CHR ''/''"
      using assms(2) by (metis nth_mem)
  qed
  have lt: "length d < length ?p - 1" using assms(1) by (cases nm) auto
  then have "dirname_loop ?p (length ?p - 1) True = dirname_loop ?p (length d) False"
    using dirname_loop_skip[OF inside, of True] by simp
  also have "\<dots> = (if d = [] then None else Some (length d))"
  proof (cases d)
    case Nil
    then show ?thesis by simp
  next
    case (Cons x xs)
    then have "length d = Suc (length xs)" by simp
    moreover have "?p ! length d = CHR ''/''" by simp
    ultimately show ?thesis using Cons by (metis dirname_loop.simps(2) list.distinct(1))
  qed
  finally show ?thesis .
qed

lemma js_slice_prefix: "js_slice (d @ r) 0 (int (length d)) = d"
  by (simp add: js_slice_def)

lemma path_dirname_last_component:
  assumes "nm \<noteq> []" and "CHR ''/'' \<notin> set nm"
  shows "path_dirname (d @ CHR ''/'' # nm) =
         (if d = [] then ''/'' else if d = ''/'' then ''//'' else d)"
proof (cases "d = []")
  case True
  then show ?thesis
    using dirname_loop_last_component[OF assms, of d] by (simp add: path_dirname_def)
next
  case False
  then have hd: "(d @ CHR ''/'' # nm) ! 0 = d ! 0" by (cases d) auto
  have one: "(d ! 0 = CHR ''/'' \<and> length d = 1) = (d = ''/'')"
    by (cases d) auto
  show ?thesis
    using False dirname_loop_last_component[OF assms, of d] hd one
    by (simp add: path_dirname_def js_slice_prefix del: One_nat_def)
qed


lemma basename_suffix_loop_step:
  "p ! i \<noteq> CHR ''/'' \<Longrightarrow> 0 \<le> x \<Longrightarrow> p ! i = sfx ! nat x \<Longrightarrow>
   basename_suffix_loop p sfx (Suc i) e m x f =
   basename_suffix_loop p sfx i (if x = 0 then int i else e)
     (if f = - 1 then False else m) (x - 1) (if f = - 1 then int i + 1 else f)"
  by (simp add: Let_def)

lemma basename_suffix_loop_match:
  assumes "CHR ''/'' \<notin> set sfx" and "Suc k \<le> length sfx"
  shows "basename_suffix_loop (q @ sfx) sfx (Suc (length q + k)) e m (int k) f =
         basename_suffix_loop (q @ sfx) sfx (length q) (int (length q))
           (if f = - 1 then False else m) (- 1)
           (if f = - 1 then int (length q + k) + 1 else f)"
  using assms(2)
proof (induction k arbitrary: e m f)
  case 0
  then have "sfx ! 0 \<noteq> CHR ''/''" using assms(1) by (metis Suc_le_lessD nth_mem)
  then show ?case
    using basename_suffix_loop_step[of "q @ sfx" "length q" 0 sfx e m f]
    by (simp add: nth_append del: basename_suffix_loop.simps)
next
  case (Suc k)
  let ?m1 = "if f = - 1 then False else m"
  let ?f1 = "if f = - 1 then int (length q + Suc k) + 1 else f"
  have ns: "sfx ! Suc k \<noteq> CHR ''/''"
    using Suc.prems assms(1) by (metis Suc_le_lessD nth_mem)
  have le: "Suc k \<le> length sfx" using Suc.prems by simp
  have f1: "?f1 \<noteq> - 1" by simp
  have "basename_suffix_loop (q @ sfx) sfx (Suc (length q + Suc k)) e m (int (Suc k)) f =
        basename_suffix_loop (q @ sfx) sfx (length q + Suc k)
          (if int (Suc k) = 0 then int (length q + Suc k) else e) ?m1 (int (Suc k) - 1) ?f1"
    by (rule basename_suffix_loop_step) (simp_all add: nth_append ns del: of_nat_Suc)
  also have "\<dots> = basename_suffix_loop (q @ sfx) sfx (Suc (length q + k)) e ?m1 (int k) ?f1"
    by (simp del: basename_suffix_loop.simps)
  also have "\<dots> = basename_suffix_loop (q @ sfx) sfx (length q) (int (length q))
                     (if ?f1 = - 1 then False else ?m1) (- 1)
                     (if ?f1 = - 1 then int (length q + k) + 1 else ?f1)"
    by (rule Suc.IH[OF le])
  also have "\<dots> = basename_suffix_loop (q @ sfx) sfx (length q) (int (length q)) ?m1 (- 1) ?f1"
    using f1 by (simp del: basename_suffix_loop.simps)
  finally show ?case .
qed

lemma basename_suffix_loop_skip:
  "\<forall>j. a \<le> j \<and> j < i \<longrightarrow> p ! j \<noteq> CHR ''/'' \<Longrightarrow> a \<le> i \<Longrightarrow> f \<noteq> - 1 \<Longrightarrow> x < 0 \<Longrightarrow>
   basename_suffix_loop p sfx i e m x f = basename_suffix_loop p sfx a e m x f"
proof (induction i)
  case 0
  then show ?case by simp
next
  case (Suc i)
  show ?case
  proof (cases "Suc i = a")
    case True
    then show ?thesis by simp
  next
    case False
    with Suc.prems have "a \<le> i" and "p ! i \<noteq> CHR ''/''" by auto
    with Suc show ?thesis by (simp add: Let_def)
  qed
qed

lemma js_slice_middle:
  "js_slice (a @ b @ c) (int (length a)) (int (length a + length b)) = b"
  by (simp add: js_slice_def)

lemma path_basename_strips_suffix:
  assumes "stem \<noteq> []" and "CHR ''/'' \<notin> set stem"
    and "sfx \<noteq> []" and "CHR ''/'' \<notin> set sfx"
  shows "path_basename (pre @ CHR ''/'' # stem @ sfx) sfx = stem"
proof -
  let ?q = "pre @ CHR ''/'' # stem"
  let ?p = "?q @ sfx"
  obtain k where k: "length sfx = Suc k" using assms(3) by (cases sfx) auto
  have len: "length ?p = length ?q + Suc k" using k by simp
  have neq: "sfx \<noteq> ?p" using assms(4)
    by (metis append.assoc append_Cons in_set_conv_decomp)
  have inside: "\<forall>j. Suc (length pre) \<le> j \<and> j < length ?q \<longrightarrow> ?p ! j \<noteq> CHR ''/''"
  proof (intro allI impI)
    fix j assume j: "Suc (length pre) \<le> j \<and> j < length ?q"
    then have "?p ! j = stem ! (j - length pre - 1)"
      by (auto simp: nth_append nth_Cons')
    moreover have "j - length pre - 1 < length stem" using j by auto
    ultimately show "?p ! j \<noteq> CHR ''/''"
      using assms(2) by (metis nth_mem)
  qed
  have at: "?p ! length pre = CHR ''/''" by (simp add: nth_append)
  have idx: "length ?p = Suc (length ?q + k)" using k by simp
  have ext: "int (length sfx) - 1 = int k" using k by simp
  have "basename_suffix_loop ?p sfx (length ?p) (- 1) True (int (length sfx) - 1) (- 1) =
        basename_suffix_loop ?p sfx (Suc (length ?q + k)) (- 1) True (int k) (- 1)"
    by (simp only: idx ext)
  also have "\<dots> = basename_suffix_loop ?p sfx (length ?q) (int (length ?q)) False (- 1)
                     (int (length ?q + k) + 1)"
    using basename_suffix_loop_match[OF assms(4), of k ?q "- 1" True "- 1"] k
    by (simp del: basename_suffix_loop.simps)
  also have "\<dots> = basename_suffix_loop ?p sfx (Suc (length pre)) (int (length ?q)) False (- 1)
                     (int (length ?q + k) + 1)"
    by (rule basename_suffix_loop_skip[OF inside]) simp_all
  also have "\<dots> = (length pre + 1, int (length ?q), int (length ?q + k) + 1)"
    using at by simp
  finally have loop:
    "basename_suffix_loop ?p sfx (length ?p) (- 1) True (int (length sfx) - 1) (- 1) =
       (length pre + 1, int (length ?q), int (length ?q + k) + 1)" .
  have sl: "js_slice ?p (int (length pre + 1)) (int (length ?q)) = stem"
    using js_slice_middle[of "pre @ ''/''" stem sfx] by simp
  have "path_basename ?p sfx = js_slice ?p (int (length pre + 1)) (int (length ?q))"
    unfolding path_basename_def using assms(1,3) neq loop k
    by (simp del: append_assoc add: Let_def)
  with sl show ?thesis by simp
qed


lemma plain_segment_ext:
  assumes "CHR ''/'' \<notin> set stem"
  shows "plain_segment (stem @ ''.docx'')"
  using assms by (auto simp: plain_segment_def append_eq_Cons_conv)

lemma abs_path_eq_Nil: "\<forall>c \<in> set comps. plain_segment c \<Longrightarrow> (abs_path comps = []) = (comps = [])"
  by (cases comps) (simp_all add: abs_path_def)

lemma abs_path_not_root: "\<forall>c \<in> set comps. plain_segment c \<Longrightarrow> abs_path comps \<noteq> ''/''"
  by (cases comps) (auto simp: abs_path_def plain_segment_def)

lemma path_join_root:
  assumes "plain_segment x"
  shows "path_join [''/'', x] = abs_path [x]"
proof -
  have x: "x \<noteq> []" "CHR ''/'' \<notin> set x" "x \<noteq> ''.''" "x \<noteq> ''..''"
    using assms by (simp_all add: plain_segment_def)
  then have "last x \<noteq> CHR ''/''" by (metis last_in_set)
  then show ?thesis
    using x
    by (simp add: path_join_def path_normalize_def normalizeString_def split_on_no_sep
        normalize_segment_def abs_path_def Let_def)
qed

lemma path_join_dir:
  assumes "\<forall>c \<in> set dir. plain_segment c" and "dir \<noteq> []" and "plain_segment x"
  shows "path_join [abs_path dir, x] = abs_path (dir @ [x])"
proof -
  have "abs_path dir \<noteq> []" using assms(1,2) by (simp add: abs_path_eq_Nil)
  moreover have "x \<noteq> []" using assms(3) by (simp add: plain_segment_def)
  ultimately have "path_join [abs_path dir, x] = path_normalize (abs_path (dir @ [x]))"
    by (simp add: path_join_def abs_path_snoc)
  also have "\<dots> = abs_path (dir @ [x])"
    by (rule path_normalize_abs_path) (use assms in auto)
  finally show ?thesis .
qed

lemma outputFile_of_md:
  assumes "\<forall>c \<in> set dir. plain_segment c" and "stem \<noteq> []" and "CHR ''/'' \<notin> set stem"
  shows "outputFile_of (abs_path (dir @ [stem @ ''.md''])) = abs_path (dir @ [stem @ ''.docx''])"
proof -
  let ?inp = "abs_path dir @ CHR ''/'' # stem @ ''.md''"
  have bn: "path_basename ?inp ''.md'' = stem"
    by (rule path_basename_strips_suffix) (use assms in simp_all)
  have dn: "path_dirname ?inp = (if dir = [] then ''/'' else abs_path dir)"
    using path_dirname_last_component[of "stem @ ''.md''" "abs_path dir"] assms
      abs_path_eq_Nil[OF assms(1)] abs_path_not_root[OF assms(1)]
    by simp
  have pl: "plain_segment (stem @ ''.docx'')" using assms(3) by (rule plain_segment_ext)
  have inp: "abs_path (dir @ [stem @ ''.md'']) = ?inp"
    by (simp add: abs_path_snoc)
  have "outputFile_of ?inp =
        path_join [if dir = [] then ''/'' else abs_path dir, stem @ ''.docx'']"
    unfolding outputFile_of_def Let_def bn dn ..
  also have "\<dots> = abs_path (dir @ [stem @ ''.docx''])"
  proof (cases "dir = []")
    case True
    then show ?thesis using path_join_root[OF pl] by simp
  next
    case False
    then show ?thesis using path_join_dir[OF assms(1) False pl] by simp
  qed
  finally show ?thesis unfolding inp .
qed

lemma path_normalize_nonempty: "path_normalize p \<noteq> []"
  by (simp add: path_normalize_def Let_def)

lemma outputFile_of_nonempty: "outputFile_of filePath \<noteq> []"
  by (simp add: outputFile_of_def path_join_def path_normalize_nonempty Let_def)

text \<open>
  Whatever the directory part of the input path is, the output path is the input
  path with \<^verbatim>\<open>.md\<close> replaced by \<^verbatim>\<open>.docx\<close>, normalised. A file name that does not end
  in \<^verbatim>\<open>.md\<close> after a non-empty stem keeps its whole name before \<^verbatim>\<open>.docx\<close>.
\<close>

lemma path_normalize_slashes:
  assumes "plain_segment x"
  shows "path_normalize (CHR ''/'' # x) = CHR ''/'' # x"
    and "path_normalize (CHR ''/'' # CHR ''/'' # x) = CHR ''/'' # x"
    and "path_normalize (CHR ''/'' # CHR ''/'' # CHR ''/'' # x) = CHR ''/'' # x"
proof -
  have x: "x \<noteq> []" "CHR ''/'' \<notin> set x" "x \<noteq> ''.''" "x \<noteq> ''..''"
    using assms by (simp_all add: plain_segment_def)
  then have l: "last x \<noteq> CHR ''/''" by (metis last_in_set)
  show "path_normalize (CHR ''/'' # x) = CHR ''/'' # x"
    and "path_normalize (CHR ''/'' # CHR ''/'' # x) = CHR ''/'' # x"
    and "path_normalize (CHR ''/'' # CHR ''/'' # CHR ''/'' # x) = CHR ''/'' # x"
    using x l
    by (simp_all add: path_normalize_def normalizeString_def split_on_no_sep
        normalize_segment_def Let_def)
qed

lemma outputFile_of_md_any_directory:
  assumes "stem \<noteq> []" and "CHR ''/'' \<notin> set stem"
  shows "outputFile_of (d @ CHR ''/'' # stem @ ''.md'') =
         path_normalize (d @ CHR ''/'' # stem @ ''.docx'')"
proof -
  let ?inp = "d @ CHR ''/'' # stem @ ''.md''"
  have bn: "path_basename ?inp ''.md'' = stem"
    by (rule path_basename_strips_suffix) (use assms in simp_all)
  have dn: "path_dirname ?inp = (if d = [] then ''/'' else if d = ''/'' then ''//'' else d)"
    using path_dirname_last_component[of "stem @ ''.md''" d] assms by simp
  have pl: "plain_segment (stem @ ''.docx'')" using assms(2) by (rule plain_segment_ext)
  have "outputFile_of ?inp =
        path_join [if d = [] then ''/'' else if d = ''/'' then ''//'' else d, stem @ ''.docx'']"
    unfolding outputFile_of_def Let_def bn dn ..
  also have "\<dots> = path_normalize (d @ CHR ''/'' # stem @ ''.docx'')"
    using path_normalize_slashes[OF pl] by (simp add: path_join_def)
  finally show ?thesis .
qed

lemma outputFile_of_other_names:
  "outputFile_of ''/docs/notes.txt'' = ''/docs/notes.txt.docx''"
  "outputFile_of ''/docs/README.MD'' = ''/docs/README.MD.docx''"
  "outputFile_of ''/docs/.md'' = ''/docs/.md.docx''"
  by code_simp+

subsection \<open>The \<^verbatim>\<open>App\<close> of \<^verbatim>\<open>src/App.jsx\<close>\<close>

text \<open>
  This copy of \<^verbatim>\<open>App\<close> has no \<^verbatim>\<open>error\<close> cell: a rejection is logged and the state is
  the one before, an output path of an earlier conversion included.
\<close>

lemma handleConvert_App_reject_only_logged:
  "file' a = Some f \<Longrightarrow>
   handleConvert_App (Reject m) a =
     [SetIsConverting True, ConvertFile (path f) (settings a),
      ConsoleError ''Conversion failed:'' (Reject m), SetIsConverting False]
   \<and> run_App (handleConvert_App (Reject m) a) a = a\<lparr>isConverting := False\<rparr>"
  by (simp add: handleConvert_App_def)

lemma handleConvert_App_keeps_output:
  "file' a = Some f \<Longrightarrow>
   outputFile (run_App (takeWhile (\<lambda>e. \<not> is_ConvertFile e) (handleConvert_App r a)) a)
     = outputFile a"
  by (simp add: handleConvert_App_def)

section \<open>The claims\<close>

text \<open>
  The sources hold two copies of \<^verbatim>\<open>App\<close>: the one with the \<^verbatim>\<open>error\<close> cell
  (\<open>handleConvert\<close>, of \<^verbatim>\<open>unnamed/part_000\<close>) and the one of \<^verbatim>\<open>src/App.jsx\<close>
  (\<open>handleConvert_App\<close>). The theorems on the conversion orchestrator speak of
  both.
\<close>







text \<open>
  Claim C3. With no file selected, convert does nothing: it makes no call at
  all, so the bridge is not called and the state is the one before (an Idle state
  stays Idle). This holds of both copies of \<^verbatim>\<open>App\<close>.
\<close>

theorem handleConvert_no_file_noop:
  "(file' s = None \<longrightarrow>
      handleConvert r s = [] \<and> bridge_calls (handleConvert r s) = []
      \<and> run (handleConvert r s) s = s)
   \<and> (file' a = None \<longrightarrow>
      handleConvert_App r a = [] \<and> bridge_calls (handleConvert_App r a) = []
      \<and> run_App (handleConvert_App r a) a = a)"
  by (simp add: handleConvert_def handleConvert_App_def bridge_calls_def)

theorem handleConvert_no_file_noop_witness:
  "file' initial_app = None \<and> conversionState initial_app = Idle
   \<and> handleConvert (Resolve ''/docs/report.docx'') initial_app = []
   \<and> conversionState (run (handleConvert (Resolve ''/docs/report.docx'') initial_app) initial_app)
       = Idle
   \<and> file' initial_App = None
   \<and> handleConvert_App (Resolve ''/docs/report.docx'') initial_App = []"
proof -
  have none: "file' initial_app = None" and none': "file' initial_App = None"
    by (simp_all add: initial_app_def initial_App_def)
  have idle: "conversionState initial_app = Idle"
    by (simp add: initial_app_def conversionState_def truthy_def)
  show ?thesis
    using none none' idle
      handleConvert_no_file_noop [of initial_app "Resolve ''/docs/report.docx''" initial_App]
    by simp
qed

text \<open>
  Claim C4. With a file selected, when the bridge call resolves with an output
  path, the \<^verbatim>\<open>outputFile\<close> cell holds exactly that path (in both copies of \<^verbatim>\<open>App\<close>).
  For a path that is not the empty string the state is Succeeded with that path,
  and the copy action that follows writes exactly that path to the clipboard,
  once. (The empty string is falsy: \<^verbatim>\<open>if (outputFile)\<close> skips the copy. The
  handler of \<^verbatim>\<open>convert-file\<close> never resolves with it, see \<open>outputFile_of_nonempty\<close>.)
\<close>

theorem handleConvert_resolve_succeeded_copy:
  "file' s = Some f \<Longrightarrow> file' a = Some f \<Longrightarrow>
   (let s' = run (handleConvert (Resolve p) s) s;
        a' = run_App (handleConvert_App (Resolve p) a) a
    in outputFile s' = Some p \<and> error s' = None \<and> \<not> isConverting s'
       \<and> outputFile a' = Some p \<and> \<not> isConverting a'
       \<and> (p \<noteq> [] \<longrightarrow>
             conversionState s' = Succeeded p
             \<and> clipboard_writes (handleCopyPath written (outputFile s')) = [p]
             \<and> clipboard_writes (handleCopyPath written (outputFile a')) = [p]))"
  by (simp add: handleConvert_def handleConvert_App_def conversionState_def truthy_def
      handleCopyPath_def Let_def)

theorem handleConvert_resolve_succeeded_copy_witness:
  "file' failed_app = Some report_md
   \<and> file' (initial_App\<lparr>file' := Some report_md\<rparr>) = Some report_md
   \<and> ''/docs/report.docx'' \<noteq> []
   \<and> conversionState (run (handleConvert (Resolve ''/docs/report.docx'') failed_app) failed_app)
       = Succeeded ''/docs/report.docx''
   \<and> clipboard_writes (handleCopyPath True
         (outputFile (run (handleConvert (Resolve ''/docs/report.docx'') failed_app) failed_app)))
       = [''/docs/report.docx'']"
proof -
  have sel: "file' failed_app = Some report_md"
    by (simp add: failed_app_def)
  have sel': "file' (initial_App\<lparr>file' := Some report_md\<rparr>) = Some report_md"
    by simp
  show ?thesis
    using sel sel'
      handleConvert_resolve_succeeded_copy [OF sel sel', of "''/docs/report.docx''" True]
    by (auto simp: Let_def)
qed

text \<open>
  Claim C5 (the code departs from it). The claim has a font-family change store
  the selected font name as a string. \<open>handleChange\<close> passes every value through
  \<open>parseFloat\<close>, the font name too: choosing \<^verbatim>\<open>Arial\<close> in the initial state stores
  \<^verbatim>\<open>NaN\<close> under \<^verbatim>\<open>fontFamily\<close>, where the initial settings hold the string
  \<^verbatim>\<open>Times New Roman\<close>.
\<close>

theorem handleChange_fontFamily_NaN:
  "obj_at initial_heap 0 ''fontFamily'' = Some (JString ''Times New Roman'')
   \<and> fst (handleChange 0 ''fontFamily'' ''Arial'' initial_heap) = [SetSettings 1]
   \<and> obj_at (snd (handleChange 0 ''fontFamily'' ''Arial'' initial_heap)) 1 ''fontFamily''
       = Some JNaN
   \<and> obj_at (snd (handleChange 0 ''fontFamily'' ''Arial'' initial_heap)) 1 ''fontFamily''
       \<noteq> Some (JString ''Arial'')
   \<and> parseFloat ''Times New Roman'' = JNaN \<and> parseFloat ''Arial'' = JNaN
   \<and> parseFloat ''Calibri'' = JNaN"
  by (simp add: handleChange_def alloc_def obj_at_def initial_heap_def defaultSettings_def
      parseFloat_def signOf_def isWhiteSpace_def isDigit_def)

text \<open>
  Claim C6. A change of one field allocates a new settings object: it is not the
  old reference, it agrees with the old object on every key other than the
  changed one and holds the parsed value under the changed key; the old object,
  like every object already in the store, is left as it was.
\<close>

theorem handleChange_frame:
  "settings' < fresh h \<Longrightarrow> handleChange settings' key value' h = (es, h') \<Longrightarrow>
   (\<exists>r. es = [SetSettings r] \<and> r \<noteq> settings'
        \<and> (\<forall>k. k \<noteq> key \<longrightarrow> obj_at h' r k = obj_at h settings' k)
        \<and> obj_at h' r key = Some (parseFloat value')
        \<and> (\<forall>r'. r' \<noteq> r \<longrightarrow> cells h' r' = cells h r')
        \<and> obj_at h' settings' = obj_at h settings')"
  by (auto simp: handleChange_def alloc_def obj_at_def)

theorem handleChange_frame_witness:
  "(0::nat) < fresh initial_heap
   \<and> fst (handleChange 0 ''marginTop'' ''2.5'' initial_heap) = [SetSettings 1]
   \<and> obj_at (snd (handleChange 0 ''marginTop'' ''2.5'' initial_heap)) 1 ''marginTop''
       = Some (JNumber (5 / 2))
   \<and> obj_at (snd (handleChange 0 ''marginTop'' ''2.5'' initial_heap)) 1 ''fontSize''
       = Some (JNumber 14)
   \<and> obj_at (snd (handleChange 0 ''marginTop'' ''2.5'' initial_heap)) 0 ''marginTop''
       = Some (JNumber 2)"
proof -
  have lt: "(0::nat) < fresh initial_heap"
    by (simp add: initial_heap_def alloc_def)
  obtain es h' where run: "handleChange 0 ''marginTop'' ''2.5'' initial_heap = (es, h')"
    by (cases "handleChange 0 ''marginTop'' ''2.5'' initial_heap")
  have es: "es = [SetSettings 1]"
    using run by (auto simp: handleChange_def alloc_def initial_heap_def)
  have pf: "parseFloat ''2.5'' = JNumber (5 / 2)"
    by (simp add: parseFloat_def signOf_def isWhiteSpace_def isDigit_def digitsValue_def
        parseExponent_def)
  have old: "obj_at initial_heap 0 = defaultSettings"
    by (simp add: initial_heap_def alloc_def obj_at_def)
  from handleChange_frame [OF lt run] es
  have "obj_at h' 1 ''marginTop'' = Some (parseFloat ''2.5'')"
    and "obj_at h' 1 ''fontSize'' = obj_at initial_heap 0 ''fontSize''"
    and "obj_at h' 0 = obj_at initial_heap 0"
    by auto
  then show ?thesis
    using lt run es pf old by (simp add: defaultSettings_def)
qed

text \<open>
  Claim C7. A drop whose first file has a name ending in \<^verbatim>\<open>.md\<close> makes that file
  the selection; a drop whose first file has any other name changes nothing: the
  handler only ends the drag highlight, no error is raised or shown.
\<close>

theorem handleDrop_md_only:
  "(suffix ''.md'' (name f) \<longrightarrow>
      handleDrop (f # fs) = [SetIsDragging False, SetFile (Some f)]
      \<and> file' (run (handleDrop (f # fs)) s) = Some f)
   \<and> (\<not> suffix ''.md'' (name f) \<longrightarrow>
      handleDrop (f # fs) = [SetIsDragging False]
      \<and> run (handleDrop (f # fs)) s = s)"
  by (simp add: handleDrop_def endsWith_suffix)

theorem handleDrop_md_only_witness:
  "suffix ''.md'' (name report_md) \<and> \<not> suffix ''.md'' (name notes_txt)
   \<and> file' (run (handleDrop [report_md]) initial_app) = Some report_md
   \<and> run (handleDrop [notes_txt]) failed_app = failed_app"
proof -
  have yes: "suffix ''.md'' (name report_md)"
    by (simp add: report_md_def suffix_def)
  have no: "\<not> suffix ''.md'' (name notes_txt)"
    by (simp add: notes_txt_def suffix_def append_eq_Cons_conv Cons_eq_append_conv)
  show ?thesis
    using yes no handleDrop_md_only [of report_md "[]" initial_app]
      handleDrop_md_only [of notes_txt "[]" failed_app]
    by simp
qed

text \<open>
  Claim C8. A file chosen in the browse dialog becomes the selection whatever
  its name is: \<open>handleFileSelect\<close> takes the first file the picker returns and
  makes no test on it. When the picker returns no file, nothing changes.
\<close>

theorem handleFileSelect_any_file:
  "handleFileSelect (f # fs) = [SetFile (Some f)]
   \<and> file' (run (handleFileSelect (f # fs)) s) = Some f
   \<and> run (handleFileSelect []) s = s"
  by (simp add: handleFileSelect_def)

theorem handleFileSelect_any_file_witness:
  "\<not> suffix ''.md'' (name notes_txt)
   \<and> file' (run (handleFileSelect [notes_txt]) initial_app) = Some notes_txt"
proof -
  have no: "\<not> suffix ''.md'' (name notes_txt)"
    by (simp add: notes_txt_def suffix_def append_eq_Cons_conv Cons_eq_append_conv)
  show ?thesis
    using no handleFileSelect_any_file [of notes_txt "[]" initial_app] by simp
qed

text \<open>
  Claim C9. For an absolute, normalised input path whose file name is a non-empty
  stem followed by \<^verbatim>\<open>.md\<close>, the conversion resolves exactly when the converter
  exits with code 0, and then with the path of the same directory whose file name
  is the stem followed by \<^verbatim>\<open>.docx\<close>: the two paths have the same \<^verbatim>\<open>dirname\<close>, and the
  output's base name without \<^verbatim>\<open>.docx\<close> is the input's base name without \<^verbatim>\<open>.md\<close>.
  For a directory part \<open>d\<close> of any form, the output is the input path with \<^verbatim>\<open>.md\<close>
  replaced by \<^verbatim>\<open>.docx\<close>, as \<^verbatim>\<open>path.join\<close> normalises it.
\<close>

theorem convert_file_output_path:
  assumes "\<forall>c \<in> set dir. plain_segment c" and "stem \<noteq> []" and "CHR ''/'' \<notin> set stem"
  shows "let filePath = abs_path (dir @ [stem @ ''.md'']);
             out = abs_path (dir @ [stem @ ''.docx''])
         in (convert_file filePath st code stderr = Resolve p) = (code = Some 0 \<and> p = out)
            \<and> path_dirname out = path_dirname filePath
            \<and> path_basename out ''.docx'' = stem
            \<and> path_basename filePath ''.md'' = stem
            \<and> (\<forall>d. convert_file (d @ CHR ''/'' # stem @ ''.md'') st (Some 0) stderr =
                     Resolve (path_normalize (d @ CHR ''/'' # stem @ ''.docx'')))"
proof -
  have any: "\<forall>d. convert_file (d @ CHR ''/'' # stem @ ''.md'') st (Some 0) stderr =
                 Resolve (path_normalize (d @ CHR ''/'' # stem @ ''.docx''))"
    using assms(2,3) by (simp add: convert_file_def outputFile_of_md_any_directory)
  have out: "outputFile_of (abs_path (dir @ [stem @ ''.md''])) = abs_path (dir @ [stem @ ''.docx''])"
    using assms by (rule outputFile_of_md)
  have dn: "path_dirname (abs_path dir @ CHR ''/'' # stem @ ''.docx'') =
            path_dirname (abs_path dir @ CHR ''/'' # stem @ ''.md'')"
    using assms(3)
      path_dirname_last_component [of "stem @ ''.docx''" "abs_path dir"]
      path_dirname_last_component [of "stem @ ''.md''" "abs_path dir"]
    by simp
  have bn: "path_basename (abs_path dir @ CHR ''/'' # stem @ ''.docx'') ''.docx'' = stem"
    "path_basename (abs_path dir @ CHR ''/'' # stem @ ''.md'') ''.md'' = stem"
    using assms(2,3) by (simp_all add: path_basename_strips_suffix)
  have "(convert_file (abs_path (dir @ [stem @ ''.md''])) st code stderr = Resolve p) =
        (code = Some 0 \<and> p = abs_path (dir @ [stem @ ''.docx'']))"
    using out by (auto simp: convert_file_def)
  then show ?thesis
    using dn bn any by (simp add: Let_def abs_path_snoc)
qed

theorem convert_file_output_path_witness:
  "plain_segment ''docs'' \<and> ''report'' \<noteq> [] \<and> CHR ''/'' \<notin> set ''report''
   \<and> convert_file ''/docs/report.md'' 0 (Some 0) [] = Resolve ''/docs/report.docx''
   \<and> path_dirname ''/docs/report.docx'' = path_dirname ''/docs/report.md''
   \<and> path_basename ''/docs/report.md'' ''.md'' = ''report''"
proof -
  have h1: "\<forall>c \<in> set [''docs'']. plain_segment c"
    by (simp add: plain_segment_def)
  have h2: "''report'' \<noteq> []" and h3: "CHR ''/'' \<notin> set ''report''"
    by simp_all
  show ?thesis
    using h1 h2 h3
      convert_file_output_path [OF h1 h2 h3, of 0 "Some 0" "[]" "''/docs/report.docx''"]
    by (simp add: Let_def abs_path_def)
qed

text \<open>
  Claim C10. The test of a dropped file's name is case-sensitive: a name ending
  in \<^verbatim>\<open>.MD\<close>, \<^verbatim>\<open>.Md\<close> or \<^verbatim>\<open>.mD\<close> (the casings of \<^verbatim>\<open>.md\<close> other than \<^verbatim>\<open>.md\<close> itself) is
  ignored, and the state, the selection in it, is unchanged.
\<close>

theorem handleDrop_case_sensitive:
  "t \<in> {''.MD'', ''.Md'', ''.mD''} \<Longrightarrow> suffix t (name f) \<Longrightarrow>
   handleDrop (f # fs) = [SetIsDragging False] \<and> run (handleDrop (f # fs)) s = s"
  by (auto simp: handleDrop_def endsWith_suffix suffix_def)

theorem handleDrop_case_sensitive_witness:
  "''.MD'' \<in> {''.MD'', ''.Md'', ''.mD''} \<and> suffix ''.MD'' (name readme_MD)
   \<and> run (handleDrop [readme_MD]) failed_app = failed_app
   \<and> file' (run (handleDrop [readme_MD]) failed_app) = Some report_md"
proof -
  have mem: "''.MD'' \<in> {''.MD'', ''.Md'', ''.mD''}"
    by simp
  have suf: "suffix ''.MD'' (name readme_MD)"
    by (simp add: readme_MD_def suffix_def)
  show ?thesis
    using mem suf handleDrop_case_sensitive [OF mem suf, of "[]" failed_app]
    by (simp add: failed_app_def)
qed

end
